theory Spec2Isabelle
  imports Main "HOL-Library.Multiset"
begin

section \<open>The Python built-ins that read\_vcf.py calls\<close>

text \<open>
  A Python \<open>str\<close> is modelled as a \<^typ>\<open>string\<close>; a \<^typ>\<open>char\<close> stands for the code point
  of the same number, so the model covers text whose code points are below 256.

  Every exception of the program is a value of \<open>error\<close>. \<open>ValueError s\<close> is what \<open>int(s)\<close>
  raises for the argument \<open>s\<close> (the argument is the literal that the message quotes);
  \<open>StreamError\<close> stands for whatever opening, decompressing or decoding the file raises.
\<close>

datatype error = ValueError string | StreamError

text \<open>
  \<open>str.isspace\<close> for one character: the code points below 256 that CPython's
  \<open>Py_UNICODE_ISSPACE\<close> accepts. \<open>str.strip()\<close> with no argument removes these.
\<close>

definition py_isspace :: "char \<Rightarrow> bool" where
  "py_isspace c = (c \<in> set [CHR 0x09, CHR 0x0A, CHR 0x0B, CHR 0x0C, CHR 0x0D,
                            CHR 0x1C, CHR 0x1D, CHR 0x1E, CHR 0x1F, CHR 0x20,
                            CHR 0x85, CHR 0xA0])"

text \<open>\<open>s.strip()\<close>: whitespace is removed at both ends.\<close>

definition str_strip :: "string \<Rightarrow> string" where
  "str_strip s = rev (dropWhile py_isspace (rev (dropWhile py_isspace s)))"

text \<open>\<open>s.startswith(p)\<close>.\<close>

definition str_startswith :: "string \<Rightarrow> string \<Rightarrow> bool" where
  "str_startswith s p = (take (length p) s = p)"

text \<open>
  \<open>s.split(sep)\<close> for a separator of one character, the only way the program calls it:
  one more field than there are separators, empty fields kept, \<open>''''.split(sep) = ['''']\<close>.
\<close>

fun str_split :: "string \<Rightarrow> char \<Rightarrow> string list" where
  "str_split [] sep = [[]]"
| "str_split (c # cs) sep =
     (if c = sep then [] # str_split cs sep
      else (case str_split cs sep of
              w # ws \<Rightarrow> (c # w) # ws
            | [] \<Rightarrow> [[c]]))"

text \<open>
  \<open>int(s)\<close> for a string argument, base 10, after CPython's \<open>PyLong_FromUnicodeObject\<close>
  and \<open>PyLong_FromString\<close>:
  \<^item> a string that is not pure ASCII is first rewritten (\<open>to_ascii\<close>): characters below 127
    stay, other whitespace becomes a blank, and every other character (no code point
    in 127..255 is a decimal digit) becomes \<open>?\<close>, which no later step accepts;
  \<^item> leading and trailing whitespace in the sense of C (\<open>Py_ISSPACE\<close>: 9..13 and 32) are
    skipped, so the separators 28..31, which \<open>strip\<close> removes, are rejected here;
  \<^item> one optional sign, then digits with single underscores between them;
  \<^item> \<open>max_str_digits\<close> is the interpreter's \<open>sys.get_int_max_str_digits()\<close>: 0 switches
    the limit off (as do interpreters that predate it), the default is 4300, and a
    literal with more digits than a non-zero limit is rejected.
\<close>

definition is_c_space :: "char \<Rightarrow> bool" where
  "is_c_space c = (c \<in> set [CHR 0x09, CHR 0x0A, CHR 0x0B, CHR 0x0C, CHR 0x0D, CHR 0x20])"

definition is_digit :: "char \<Rightarrow> bool" where
  "is_digit c = (c \<in> set ''0123456789'')"

definition digit_or_underscore :: "char \<Rightarrow> bool" where
  "digit_or_underscore c = (is_digit c \<or> c = CHR ''_'')"

definition digit_val :: "char \<Rightarrow> nat" where
  "digit_val c = of_char c - 48"

definition digits_value :: "string \<Rightarrow> nat" where
  "digits_value ds = foldl (\<lambda>acc c. 10 * acc + digit_val c) 0 ds"

definition to_ascii :: "string \<Rightarrow> string" where
  "to_ascii s =
     (if list_all (\<lambda>c. of_char c < (128::nat)) s then s
      else map (\<lambda>c. if of_char c < (127::nat) then c
                     else if py_isspace c then CHR '' '' else CHR ''?'') s)"

fun double_underscore :: "string \<Rightarrow> bool" where
  "double_underscore (a # b # cs) =
     ((a = CHR ''_'' \<and> b = CHR ''_'') \<or> double_underscore (b # cs))"
| "double_underscore cs = False"

definition long_from_string :: "nat \<Rightarrow> string \<Rightarrow> int option" where
  "long_from_string max_str_digits s =
     (let t = dropWhile is_c_space s;
          neg = (t \<noteq> [] \<and> hd t = CHR ''-'');
          u = (if t \<noteq> [] \<and> (hd t = CHR ''+'' \<or> hd t = CHR ''-'') then tl t else t);
          body = takeWhile digit_or_underscore u;
          rest = dropWhile digit_or_underscore u;
          ds = filter is_digit body
      in if body = [] \<or> hd body = CHR ''_'' \<or> last body = CHR ''_''
            \<or> double_underscore body
            \<or> (max_str_digits \<noteq> 0 \<and> max_str_digits < length ds)
            \<or> dropWhile is_c_space rest \<noteq> []
         then None
         else Some ((if neg then - 1 else 1) * int (digits_value ds)))"

definition py_int :: "nat \<Rightarrow> string \<Rightarrow> error + int" where
  "py_int max_str_digits s =
     (case long_from_string max_str_digits (to_ascii s) of
        None \<Rightarrow> Inl (ValueError s)
      | Some v \<Rightarrow> Inr v)"

text \<open>
  \<open>list(map(f, xs))\<close> where \<open>f\<close> may raise: the elements are converted from left to
  right and the first exception ends the whole expression.
\<close>

fun map_raise :: "('a \<Rightarrow> error + 'b) \<Rightarrow> 'a list \<Rightarrow> error + 'b list" where
  "map_raise f [] = Inr []"
| "map_raise f (x # xs) =
     (case f x of
        Inl e \<Rightarrow> Inl e
      | Inr y \<Rightarrow> (case map_raise f xs of Inl e \<Rightarrow> Inl e | Inr ys \<Rightarrow> Inr (y # ys)))"

text \<open>\<open>str(n)\<close> of an integer, which the f-string uses to format the counter.\<close>

fun decimal :: "nat \<Rightarrow> string" where
  "decimal n =
     (if n < 10 then [''0123456789'' ! n]
      else decimal (n div 10) @ [''0123456789'' ! (n mod 10)])"

declare decimal.simps [simp del]

definition py_str :: "int \<Rightarrow> string" where
  "py_str i = (if i < 0 then CHR ''-'' # decimal (nat (- i)) else decimal (nat i))"

section \<open>read\_vcf.py\<close>

text \<open>\<open>parse_gt(gt)\<close>: \<open>list(map(int, gt.split("/")))\<close>.\<close>

definition parse_gt :: "nat \<Rightarrow> string \<Rightarrow> error + int list" where
  "parse_gt max_str_digits gt = map_raise (py_int max_str_digits) (str_split gt CHR ''/'')"

text \<open>
  The open file \<open>fhand\<close> as the \<open>for\<close> loop sees it: a lazy sequence of lines that ends
  at the end of the file or with an exception of the reader. A file that cannot be
  opened is \<open>Raise\<close> at once.
\<close>

datatype text_stream = EOF | Raise error | Yield string text_stream

fun of_lines :: "string list \<Rightarrow> text_stream" where
  "of_lines [] = EOF"
| "of_lines (l # ls) = Yield l (of_lines ls)"

text \<open>
  The module's variables that the loop assigns: the counter, and \<open>gts\<close>, which is unbound
  (\<open>None\<close>) until the first data line has been parsed.
\<close>

record state =
  snps_read :: int
  gts :: "int list list option"

text \<open>\<open>line.strip().split("\t")[9:]\<close>, the strings handed to \<open>parse_gt\<close>.\<close>

definition sample_fields :: "string \<Rightarrow> string list" where
  "sample_fields line = drop 9 (str_split (str_strip line) CHR 0x09)"

text \<open>One pass through the body of the \<open>for\<close> loop.\<close>

definition loop_body :: "nat \<Rightarrow> string \<Rightarrow> state \<Rightarrow> error + state" where
  "loop_body max_str_digits line st =
     (if str_startswith line ''#'' then Inr st
      else (case map_raise (parse_gt max_str_digits) (sample_fields line) of
              Inl e \<Rightarrow> Inl e
            | Inr g \<Rightarrow> Inr (st\<lparr>gts := Some g, snps_read := snps_read st + 1\<rparr>)))"

fun for_loop :: "nat \<Rightarrow> text_stream \<Rightarrow> state \<Rightarrow> error + state" where
  "for_loop max_str_digits EOF st = Inr st"
| "for_loop max_str_digits (Raise e) st = Inl e"
| "for_loop max_str_digits (Yield line rest) st =
     (case loop_body max_str_digits line st of
        Inl e \<Rightarrow> Inl e
      | Inr st' \<Rightarrow> for_loop max_str_digits rest st')"

text \<open>
  A run of the script: what it has written to standard output when it ends, and the
  exception that ended it, if any. \<open>print\<close> is reached only when the loop has finished.
\<close>

record outcome =
  stdout :: string
  raised :: "error option"

definition initial :: state where
  "initial = \<lparr>snps_read = 0, gts = None\<rparr>"

definition read_vcf :: "nat \<Rightarrow> text_stream \<Rightarrow> outcome" where
  "read_vcf max_str_digits fhand =
     (case for_loop max_str_digits fhand initial of
        Inl e \<Rightarrow> \<lparr>stdout = [], raised = Some e\<rparr>
      | Inr st \<Rightarrow> \<lparr>stdout = ''SNPs read '' @ py_str (snps_read st) @ [CHR 0x0A],
                   raised = None\<rparr>)"

section \<open>Notions used to state the properties\<close>

text \<open>
  The arguments of every \<open>int\<close> call that a run makes if none of them raises, in the
  order of the calls: line by line over the lines that do not start with \<open>#\<close>, field by
  field, piece by piece.
\<close>

definition int_arguments :: "string list \<Rightarrow> string list" where
  "int_arguments ls =
     concat (map (\<lambda>line. concat (map (\<lambda>gt. str_split gt CHR ''/'') (sample_fields line)))
                 (filter (\<lambda>line. \<not> str_startswith line ''#'') ls))"

text \<open>A piece that \<open>int\<close> does not accept.\<close>

definition unparseable :: "nat \<Rightarrow> string \<Rightarrow> bool" where
  "unparseable max_str_digits p = isl (py_int max_str_digits p)"

text \<open>\<open>sep.join(xs)\<close> for a separator of one character, to build tokens and lines.\<close>

fun str_join :: "char \<Rightarrow> string list \<Rightarrow> string" where
  "str_join sep [] = []"
| "str_join sep [x] = x"
| "str_join sep (x # y # ys) = x @ sep # str_join sep (y # ys)"

text \<open>
  Stated by the specification, not by the script: ``strip trailing whitespace'',
  that is \<open>s.rstrip()\<close>, and the fields that splitting would then give.
\<close>

definition spec_rstrip :: "string \<Rightarrow> string" where
  "spec_rstrip s = rev (dropWhile py_isspace (rev s))"

definition spec_fields :: "string \<Rightarrow> string list" where
  "spec_fields line = str_split (spec_rstrip line) CHR 0x09"

text \<open>
  Example input: the nine leading columns \<open>c1 . . . . . . . .\<close> of the specification's
  scenario, and the line made of them and of the given sample columns.
\<close>

definition example_meta :: "string list" where
  "example_meta = [''c1'', ''.'', ''.'', ''.'', ''.'', ''.'', ''.'', ''.'', ''.'']"

definition example_line :: "string list \<Rightarrow> string" where
  "example_line samples = str_join CHR 0x09 (example_meta @ samples) @ [CHR 0x0A]"

definition example_header :: string where
  "example_header = ''#header'' @ [CHR 0x0A]"

text \<open>
  A line that begins with a tab: an empty first field, eight more leading fields, and
  \<open>x\<close> as the field of index 9 of the raw line.
\<close>

definition leading_tab_line :: string where
  "leading_tab_line =
     CHR 0x09 # str_join CHR 0x09 [''c1'', ''.'', ''.'', ''.'', ''.'', ''.'', ''.'', ''.'', ''x'']
       @ [CHR 0x0A]"

text \<open>
  A line that begins with a tab and has the columns \<open>./.\<close> and \<open>0/1\<close> at the indices 9
  and 10 of the raw line.
\<close>

definition shifted_line :: string where
  "shifted_line =
     CHR 0x09 # str_join CHR 0x09
       [''c1'', ''.'', ''.'', ''.'', ''.'', ''.'', ''.'', ''.'', ''./.'', ''0/1'']
       @ [CHR 0x0A]"

section \<open>Lemmas about the built-ins and the loop\<close>

lemma py_int_error: "py_int lim p = Inl e \<Longrightarrow> e = ValueError p"
  by (auto simp: py_int_def split: option.splits)

lemma parse_gt_find:
  "parse_gt lim gt =
     (case find (unparseable lim) (str_split gt CHR ''/'') of
        Some p \<Rightarrow> Inl (ValueError p)
      | None \<Rightarrow> Inr (map (\<lambda>p. projr (py_int lim p)) (str_split gt CHR ''/'')))"
proof -
  have "map_raise (py_int lim) ps =
     (case find (unparseable lim) ps of
        Some p \<Rightarrow> Inl (ValueError p)
      | None \<Rightarrow> Inr (map (\<lambda>p. projr (py_int lim p)) ps))" for ps
  proof (induction ps)
    case Nil
    show ?case by simp
  next
    case (Cons p ps)
    show ?case
    proof (cases "py_int lim p")
      case (Inl e)
      then show ?thesis using py_int_error [OF Inl] by (simp add: unparseable_def)
    next
      case (Inr v)
      then show ?thesis using Cons.IH by (simp add: unparseable_def split: option.splits)
    qed
  qed
  then show ?thesis by (simp add: parse_gt_def)
qed

lemma find_append:
  "find P (xs @ ys) = (case find P xs of Some x \<Rightarrow> Some x | None \<Rightarrow> find P ys)"
  by (induction xs) auto

lemma gts_find:
  "map_raise (parse_gt lim) ts =
     (case find (unparseable lim) (concat (map (\<lambda>gt. str_split gt CHR ''/'') ts)) of
        Some p \<Rightarrow> Inl (ValueError p)
      | None \<Rightarrow> Inr (map (\<lambda>gt. projr (parse_gt lim gt)) ts))"
proof (induction ts)
  case Nil
  show ?case by simp
next
  case (Cons t ts)
  show ?case
  proof (cases "find (unparseable lim) (str_split t CHR ''/'')")
    case None
    then show ?thesis using Cons.IH
      by (simp add: find_append parse_gt_find [of lim t] split: option.splits)
  next
    case (Some p)
    then show ?thesis
      by (simp add: find_append parse_gt_find [of lim t])
  qed
qed

lemma for_loop_both:
  "(\<forall>p. find (unparseable lim) (int_arguments ls) = Some p \<longrightarrow>
            for_loop lim (of_lines ls) st = Inl (ValueError p)) \<and>
        (find (unparseable lim) (int_arguments ls) = None \<longrightarrow>
          (\<exists>st'. for_loop lim (of_lines ls) st = Inr st' \<and>
             snps_read st' = snps_read st + int (length (filter (\<lambda>l. \<not> str_startswith l ''#'') ls))))"
proof (induction ls arbitrary: st)
  case Nil
  show ?case by (simp add: int_arguments_def)
next
  case (Cons l ls)
  show ?case
  proof (cases "str_startswith l ''#''")
    case True
    then show ?thesis using Cons.IH [of st]
      by (simp add: int_arguments_def loop_body_def)
  next
    case False
    show ?thesis
    proof (cases "find (unparseable lim) (concat (map (\<lambda>gt. str_split gt CHR ''/'') (sample_fields l)))")
      case (Some p)
      then show ?thesis using False
        by (simp add: int_arguments_def loop_body_def gts_find find_append)
    next
      case None
      let ?g = "map (\<lambda>gt. projr (parse_gt lim gt)) (sample_fields l)"
      let ?st = "st\<lparr>gts := Some ?g, snps_read := snps_read st + 1\<rparr>"
      have b: "loop_body lim l st = Inr ?st"
        using False None by (simp add: loop_body_def gts_find)
      have a: "find (unparseable lim) (int_arguments (l # ls)) = find (unparseable lim) (int_arguments ls)"
        using False None by (simp add: int_arguments_def find_append)
      have c: "length (filter (\<lambda>l. \<not> str_startswith l ''#'') (l # ls)) =
               Suc (length (filter (\<lambda>l. \<not> str_startswith l ''#'') ls))"
        using False by simp
      show ?thesis using Cons.IH [of ?st] unfolding a c by (simp add: b add.assoc)
    qed
  qed
qed

lemma for_loop_fails:
  "find (unparseable lim) (int_arguments ls) = Some p \<Longrightarrow>
     for_loop lim (of_lines ls) st = Inl (ValueError p)"
  using for_loop_both [of lim ls st] by simp

lemma for_loop_ok:
  "find (unparseable lim) (int_arguments ls) = None \<Longrightarrow>
     \<exists>st'. for_loop lim (of_lines ls) st = Inr st' \<and>
       snps_read st' = snps_read st + int (length (filter (\<lambda>l. \<not> str_startswith l ''#'') ls))"
  using for_loop_both [of lim ls st] by simp

lemma read_vcf_fails:
  "find (unparseable lim) (int_arguments ls) = Some p \<Longrightarrow>
   read_vcf lim (of_lines ls) = \<lparr>stdout = [], raised = Some (ValueError p)\<rparr>"
  by (simp add: read_vcf_def for_loop_fails)

lemma read_vcf_succeeds:
  "find (unparseable lim) (int_arguments ls) = None \<Longrightarrow>
   read_vcf lim (of_lines ls) =
     \<lparr>stdout = ''SNPs read '' @ py_str (int (length (filter (\<lambda>l. \<not> str_startswith l ''#'') ls)))
                @ [CHR 0x0A],
      raised = None\<rparr>"
  using for_loop_ok [of lim ls initial] by (auto simp: read_vcf_def initial_def)

lemma int_arguments_bad_iff:
  "(\<exists>p \<in> set (int_arguments ls). unparseable lim p) \<longleftrightarrow>
   (\<exists>l \<in> set ls. \<not> str_startswith l ''#'' \<and>
      (\<exists>gt \<in> set (sample_fields l). \<exists>p \<in> set (str_split gt CHR ''/''). unparseable lim p))"
  by (auto simp: int_arguments_def)

lemma map_raise_succeeds_iff:
  "(\<exists>ys. map_raise f xs = Inr ys) \<longleftrightarrow> (\<forall>x \<in> set xs. \<exists>y. f x = Inr y)"
  by (induction xs) (auto split: sum.splits)

lemma parse_gt_ok_iff:
  "(\<exists>g. parse_gt lim gt = Inr g) \<longleftrightarrow> (\<forall>p \<in> set (str_split gt CHR ''/''). \<not> unparseable lim p)"
proof -
  have "(\<exists>y. py_int lim p = Inr y) \<longleftrightarrow> \<not> isl (py_int lim p)" for p
    by (cases "py_int lim p") auto
  then show ?thesis
    by (simp add: parse_gt_def map_raise_succeeds_iff unparseable_def)
qed

lemma gts_ok_iff:
  "(\<exists>g. map_raise (parse_gt lim) ts = Inr g) \<longleftrightarrow>
   (\<forall>gt \<in> set ts. \<forall>p \<in> set (str_split gt CHR ''/''). \<not> unparseable lim p)"
  unfolding map_raise_succeeds_iff parse_gt_ok_iff ..

lemmas py_eval = parse_gt_def py_int_def long_from_string_def Let_def to_ascii_def is_c_space_def
  digit_or_underscore_def is_digit_def digits_value_def digit_val_def sample_fields_def
  str_strip_def py_isspace_def str_startswith_def read_vcf_def initial_def loop_body_def
  py_str_def decimal.simps example_meta_def example_line_def example_header_def
  int_arguments_def unparseable_def spec_rstrip_def spec_fields_def

lemma count_by_mset:
  assumes "mset ls = mset (hs @ ds)" "\<forall>h \<in> set hs. P h" "\<forall>d \<in> set ds. \<not> P d"
  shows "length (filter (\<lambda>l. \<not> P l) ls) = length ds"
proof -
  have "mset (filter (\<lambda>l. \<not> P l) ls) = mset (filter (\<lambda>l. \<not> P l) (hs @ ds))"
    using assms(1) by (simp only: mset_filter)
  also have "filter (\<lambda>l. \<not> P l) (hs @ ds) = ds"
    using assms(2,3) by simp
  finally show ?thesis by (metis size_mset)
qed

lemma all_parse_iff:
  "(\<forall>l \<in> set ls. \<not> str_startswith l ''#'' \<longrightarrow>
       (\<exists>g. map_raise (parse_gt lim) (sample_fields l) = Inr g)) \<longleftrightarrow>
   find (unparseable lim) (int_arguments ls) = None"
  unfolding gts_ok_iff find_None_iff by (auto simp: int_arguments_def)

lemma find_some: "\<exists>x \<in> set xs. P x \<Longrightarrow> \<exists>y. find P xs = Some y"
  by (cases "find P xs") (auto simp: find_None_iff)

lemma unparseable_examples: "unparseable lim ''.''" "unparseable lim []"
  by (simp_all add: py_eval)

lemma example_fields_3: "sample_fields (example_line [''0/1'', ''./1'', ''x'']) = [''0/1'', ''./1'', ''x'']"
  by (simp add: py_eval)

lemma example_line_data: "\<not> str_startswith (example_line samples) ''#''"
  by (simp add: example_line_def example_meta_def str_startswith_def)

lemma read_vcf_quiet_on_error:
  "raised (read_vcf lim fhand) = Some e \<Longrightarrow> stdout (read_vcf lim fhand) = []"
  by (cases "for_loop lim fhand initial") (simp_all add: read_vcf_def)

lemma example_fields_4: "sample_fields (example_line [''0/.'']) = [''0/.'']"
  by (simp add: py_eval)

lemma startswith_hash: "str_startswith line ''#'' \<longleftrightarrow> (\<exists>rest. line = CHR ''#'' # rest)"
  by (cases line) (auto simp: str_startswith_def)

lemma isspace_not_hash: "py_isspace c \<Longrightarrow> c \<noteq> CHR ''#''"
  by (auto simp: py_isspace_def)

lemma length_str_split: "length (str_split s sep) = Suc (length (filter (\<lambda>c. c = sep) s))"
  by (induction s) (auto split: list.splits)

lemma filter_dropWhile_le: "length (filter P (dropWhile Q xs)) \<le> length (filter P xs)"
  by (induction xs) auto

lemma filter_strip_le: "length (filter P (str_strip s)) \<le> length (filter P s)"
proof -
  have "length (filter P (str_strip s)) = length (filter P (dropWhile py_isspace (rev (dropWhile py_isspace s))))"
    by (simp add: str_strip_def rev_filter [symmetric])
  also have "\<dots> \<le> length (filter P (rev (dropWhile py_isspace s)))"
    by (rule filter_dropWhile_le)
  also have "\<dots> = length (filter P (dropWhile py_isspace s))"
    by (simp add: rev_filter [symmetric])
  also have "\<dots> \<le> length (filter P s)"
    by (rule filter_dropWhile_le)
  finally show ?thesis .
qed

lemma fields_strip_le: "length (str_split (str_strip s) sep) \<le> length (str_split s sep)"
  by (simp add: length_str_split filter_strip_le)


lemma digit_char: "k < 10 \<Longrightarrow> is_digit (''0123456789'' ! k) \<and> digit_val (''0123456789'' ! k) = k"
proof -
  assume "k < 10"
  then have "k \<in> {0, 1, 2, 3, 4, 5, 6, 7, 8, 9}" by auto
  then show ?thesis
    by (auto simp: is_digit_def digit_val_def)
qed

lemma digits_value_snoc: "digits_value (ds @ [c]) = 10 * digits_value ds + digit_val c"
  by (simp add: digits_value_def)

lemma decimal_digits: "decimal n \<noteq> [] \<and> list_all is_digit (decimal n)"
proof (induction n rule: decimal.induct)
  case (1 n)
  show ?case
  proof (cases "n < 10")
    case True
    then show ?thesis by (simp add: decimal.simps [of n] digit_char)
  next
    case False
    then show ?thesis using 1 by (simp add: decimal.simps [of n] digit_char)
  qed
qed

lemma decimal_value: "digits_value (decimal n) = n"
proof (induction n rule: decimal.induct)
  case (1 n)
  show ?case
  proof (cases "n < 10")
    case True
    then show ?thesis by (simp add: decimal.simps [of n] digit_char digits_value_def)
  next
    case False
    then show ?thesis using 1
      by (simp add: decimal.simps [of n] digits_value_snoc digit_char)
  qed
qed

lemma decimal_no_leading_zero: "0 < n \<Longrightarrow> hd (decimal n) \<noteq> CHR ''0''"
proof (induction n rule: decimal.induct)
  case (1 n)
  show ?case
  proof (cases "n < 10")
    case True
    with 1(2) have "n \<in> {1, 2, 3, 4, 5, 6, 7, 8, 9}" by auto
    then show ?thesis by (auto simp: decimal.simps [of n])
  next
    case False
    then have "0 < n div 10" by simp
    with 1(1) False have "hd (decimal (n div 10)) \<noteq> CHR ''0''" by simp
    then show ?thesis using False decimal_digits [of "n div 10"]
      by (simp add: decimal.simps [of n])
  qed
qed

lemma is_digit_not_newline: "is_digit c \<Longrightarrow> c \<noteq> CHR 0x0A"
  by (auto simp: is_digit_def)

lemma no_newline_in_digits: "list_all is_digit ds \<Longrightarrow> filter (\<lambda>c. c = CHR 0x0A) ds = []"
  by (induction ds) (auto dest: is_digit_not_newline)

lemma loop_body_mono: "loop_body lim line st = Inr st' \<Longrightarrow> snps_read st \<le> snps_read st'"
  by (auto simp: loop_body_def split: if_splits sum.splits)

lemma for_loop_mono: "for_loop lim fhand st = Inr st' \<Longrightarrow> snps_read st \<le> snps_read st'"
proof (induction fhand arbitrary: st)
  case EOF
  then show ?case by simp
next
  case (Raise e)
  then show ?case by simp
next
  case (Yield line rest)
  then show ?case
    by (auto split: sum.splits dest!: loop_body_mono) fastforce
qed

lemma split_no_sep: "sep \<notin> set p \<Longrightarrow> str_split p sep = [p]"
  by (induction p) auto

lemma split_append_sep: "sep \<notin> set p \<Longrightarrow> str_split (p @ sep # rest) sep = p # str_split rest sep"
  by (induction p) auto

lemma split_join:
  "ps \<noteq> [] \<Longrightarrow> \<forall>p \<in> set ps. sep \<notin> set p \<Longrightarrow> str_split (str_join sep ps) sep = ps"
proof (induction sep ps rule: str_join.induct)
  case (1 sep)
  then show ?case by simp
next
  case (2 sep x)
  then show ?case by (simp add: split_no_sep)
next
  case (3 sep x y ys)
  then show ?case by (simp add: split_append_sep)
qed

lemma long_from_string_chars:
  assumes "long_from_string lim s = Some v"
  shows "\<forall>c \<in> set s. is_c_space c \<or> c = CHR ''+'' \<or> c = CHR ''-'' \<or> digit_or_underscore c"
proof -
  define t where "t = dropWhile is_c_space s"
  define u where "u = (if t \<noteq> [] \<and> (hd t = CHR ''+'' \<or> hd t = CHR ''-'') then tl t else t)"
  define body where "body = takeWhile digit_or_underscore u"
  define rest where "rest = dropWhile digit_or_underscore u"
  let ?ok = "\<lambda>c. is_c_space c \<or> c = CHR ''+'' \<or> c = CHR ''-'' \<or> digit_or_underscore c"
  from assms have r: "dropWhile is_c_space rest = []"
    unfolding long_from_string_def Let_def t_def [symmetric] u_def [symmetric]
      body_def [symmetric] rest_def [symmetric]
    by (simp split: if_splits)
  then have rest: "\<forall>c \<in> set rest. is_c_space c"
    by (simp add: dropWhile_eq_Nil_conv)
  have body: "\<forall>c \<in> set body. digit_or_underscore c"
    unfolding body_def by (auto dest: set_takeWhileD)
  have "u = body @ rest"
    by (simp add: body_def rest_def)
  with body rest have u: "\<forall>c \<in> set u. ?ok c"
    by auto
  have t: "\<forall>c \<in> set t. ?ok c"
  proof (cases "t \<noteq> [] \<and> (hd t = CHR ''+'' \<or> hd t = CHR ''-'')")
    case True
    then have "t = hd t # u" by (simp add: u_def)
    then have "set t = insert (hd t) (set u)" by (metis list.simps(15))
    with True u show ?thesis by auto
  next
    case False
    have "u = t" unfolding u_def using False by (rule if_not_P)
    with u show ?thesis by simp
  qed
  have "s = takeWhile is_c_space s @ t"
    by (simp add: t_def)
  then have "set s = set (takeWhile is_c_space s) \<union> set t"
    by (metis set_append)
  with t show ?thesis
    by (auto dest: set_takeWhileD)
qed

lemma slash_not_accepted:
  "\<not> (is_c_space CHR ''/'' \<or> CHR ''/'' = CHR ''+'' \<or> CHR ''/'' = CHR ''-'' \<or> digit_or_underscore CHR ''/'')"
  by (simp add: is_c_space_def digit_or_underscore_def is_digit_def)

lemma to_ascii_keeps_slash: "CHR ''/'' \<in> set s \<Longrightarrow> CHR ''/'' \<in> set (to_ascii s)"
proof -
  assume a: "CHR ''/'' \<in> set s"
  define f where "f = (\<lambda>c. if of_char c < (127::nat) then c
                     else if py_isspace c then CHR '' '' else CHR ''?'')"
  have "f CHR ''/'' = CHR ''/''"
    by (simp add: f_def)
  moreover from a have "f CHR ''/'' \<in> f ` set s"
    by (rule imageI)
  ultimately have "CHR ''/'' \<in> set (map f s)"
    by simp
  with a show ?thesis
    by (simp add: to_ascii_def f_def)
qed

lemma parseable_has_no_slash: "py_int lim p = Inr v \<Longrightarrow> CHR ''/'' \<notin> set p"
proof
  assume ok: "py_int lim p = Inr v" and "CHR ''/'' \<in> set p"
  then have s: "CHR ''/'' \<in> set (to_ascii p)" by (simp add: to_ascii_keeps_slash)
  from ok have "long_from_string lim (to_ascii p) = Some v"
    by (simp add: py_int_def split: option.splits)
  from long_from_string_chars [OF this] s slash_not_accepted show False
    by blast
qed

lemma map_raise_all2: "list_all2 (\<lambda>x y. f x = Inr y) xs ys \<Longrightarrow> map_raise f xs = Inr ys"
  by (induction rule: list_all2_induct) auto

lemma filter_length_all2:
  "list_all2 (\<lambda>a b. P a = Q b) xs ys \<Longrightarrow> length (filter P xs) = length (filter Q ys)"
  by (induction rule: list_all2_induct) auto

lemma example_fields_7: "sample_fields (example_line [''0/1/2'', ''3'']) = [''0/1/2'', ''3'']"
  by (simp add: py_eval)

lemma strip_decompose:
  "\<exists>a b. line = a @ str_strip line @ b \<and> list_all py_isspace a \<and> list_all py_isspace b"
proof -
  define m where "m = dropWhile py_isspace line"
  define r where "r = dropWhile py_isspace (rev m)"
  have s: "str_strip line = rev r"
    by (simp add: str_strip_def m_def r_def)
  have 1: "line = takeWhile py_isspace line @ m"
    by (simp add: m_def)
  have "rev m = takeWhile py_isspace (rev m) @ r"
    by (simp add: r_def)
  then have "rev (rev m) = rev (takeWhile py_isspace (rev m) @ r)"
    by (rule arg_cong)
  then have 2: "m = rev r @ rev (takeWhile py_isspace (rev m))"
    by simp
  have 3: "list_all py_isspace (takeWhile py_isspace line)"
    by (auto simp: list_all_iff dest: set_takeWhileD)
  have 4: "list_all py_isspace (rev (takeWhile py_isspace (rev m)))"
    by (auto simp: list_all_iff dest: set_takeWhileD)
  from 1 2 have "line = takeWhile py_isspace line @ str_strip line @ rev (takeWhile py_isspace (rev m))"
    unfolding s by simp
  with 3 4 show ?thesis by blast
qed

lemma strip_ends:
  "str_strip line = [] \<or>
   (\<not> py_isspace (hd (str_strip line)) \<and> \<not> py_isspace (last (str_strip line)))"
proof (cases "str_strip line = []")
  case True
  then show ?thesis by simp
next
  case False
  define m where "m = dropWhile py_isspace line"
  define r where "r = dropWhile py_isspace (rev m)"
  have s: "str_strip line = rev r"
    by (simp add: str_strip_def m_def r_def)
  with False have r: "r \<noteq> []" by simp
  then have "\<not> py_isspace (hd r)"
    unfolding r_def by (rule hd_dropWhile)
  then have l: "\<not> py_isspace (last (str_strip line))"
    using r by (simp add: s last_rev)
  have "rev m = takeWhile py_isspace (rev m) @ r"
    by (simp add: r_def)
  then have "rev (rev m) = rev (takeWhile py_isspace (rev m) @ r)"
    by (rule arg_cong)
  then have m: "m = rev r @ rev (takeWhile py_isspace (rev m))"
    by simp
  with r have mne: "m \<noteq> []" by auto
  from m r have "hd m = hd (rev r)"
    by (metis hd_append2 rev_is_Nil_conv)
  moreover have "\<not> py_isspace (hd m)"
    using mne unfolding m_def by (rule hd_dropWhile)
  ultimately have "\<not> py_isspace (hd (str_strip line))"
    by (simp add: s)
  with l show ?thesis by simp
qed

lemma strip_leading: "list_all py_isspace ws \<Longrightarrow> str_strip (ws @ line) = str_strip line"
  by (simp add: str_strip_def list_all_iff)

lemma strip_eq_rstrip:
  "line = [] \<or> \<not> py_isspace (hd line) \<Longrightarrow> str_strip line = spec_rstrip line"
  by (cases line) (auto simp: str_strip_def spec_rstrip_def)

lemma example_fields_1: "sample_fields (example_line [''0/0'', ''0/1'']) = [''0/0'', ''0/1'']"
  by (simp add: py_eval)

lemma example_fields_2: "sample_fields (example_line [''1/1'']) = [''1/1'']"
  by (simp add: py_eval)














section \<open>The properties\<close>

subsection \<open>C1\<close>

text \<open>
  C1. For a file that is read to its end and whose data lines all parse, the reported
  count is the number of lines that do not start with \<open>#\<close>: a file made of the header
  lines \<open>hs\<close> and the data lines \<open>ds\<close> in any order and interleaving (\<open>ls\<close> is any
  arrangement of them) prints \<open>SNPs read D\<close> with \<open>D = length ds\<close>, whatever the headers
  contain, and the file of the header lines alone prints \<open>SNPs read 0\<close>.
\<close>

theorem snps_read_counts_data_lines:
  assumes "mset ls = mset (hs @ ds)"
      and "\<forall>h \<in> set hs. str_startswith h ''#''"
      and "\<forall>d \<in> set ds. \<not> str_startswith d ''#'' \<and>
             (\<exists>g. map_raise (parse_gt lim) (sample_fields d) = Inr g)"
  shows "read_vcf lim (of_lines ls) =
           \<lparr>stdout = ''SNPs read '' @ py_str (int (length ds)) @ [CHR 0x0A], raised = None\<rparr>
         \<and> (\<exists>st. for_loop lim (of_lines ls) initial = Inr st \<and> snps_read st = int (length ds))
         \<and> length ds = length (filter (\<lambda>l. \<not> str_startswith l ''#'') ls)
         \<and> read_vcf lim (of_lines hs) = \<lparr>stdout = ''SNPs read 0'' @ [CHR 0x0A], raised = None\<rparr>"
proof -
  have n: "length (filter (\<lambda>l. \<not> str_startswith l ''#'') ls) = length ds"
    using assms by (intro count_by_mset [where hs = hs]) auto
  have "set ls = set hs \<union> set ds"
    using assms(1) by (metis mset_eq_setD set_append)
  then have "\<forall>l \<in> set ls. \<not> str_startswith l ''#'' \<longrightarrow>
             (\<exists>g. map_raise (parse_gt lim) (sample_fields l) = Inr g)"
    using assms(2,3) by auto
  then have ok: "find (unparseable lim) (int_arguments ls) = None"
    by (simp only: all_parse_iff)
  have r: "read_vcf lim (of_lines ls) =
           \<lparr>stdout = ''SNPs read '' @ py_str (int (length ds)) @ [CHR 0x0A], raised = None\<rparr>"
    using read_vcf_succeeds [OF ok] n by simp
  have s: "\<exists>st. for_loop lim (of_lines ls) initial = Inr st \<and> snps_read st = int (length ds)"
    using for_loop_ok [OF ok, of initial] n by (simp add: initial_def)
  have "int_arguments hs = []"
    using assms(2) by (simp add: int_arguments_def)
  then have "find (unparseable lim) (int_arguments hs) = None"
    by simp
  from read_vcf_succeeds [OF this]
  have h: "read_vcf lim (of_lines hs) = \<lparr>stdout = ''SNPs read 0'' @ [CHR 0x0A], raised = None\<rparr>"
    using assms(2) by (simp add: py_str_def decimal.simps)
  from r s n h show ?thesis by simp
qed

text \<open>
  The scenario of the specification with the header between the two data lines.
\<close>

theorem snps_read_counts_data_lines_witness:
  "read_vcf 4300 (of_lines [example_line [''0/0'', ''0/1''], example_header, example_line [''1/1'']]) =
     \<lparr>stdout = ''SNPs read 2'' @ [CHR 0x0A], raised = None\<rparr>
   \<and> read_vcf 4300 (of_lines [example_header]) =
     \<lparr>stdout = ''SNPs read 0'' @ [CHR 0x0A], raised = None\<rparr>"
proof -
  let ?d1 = "example_line [''0/0'', ''0/1'']" and ?d2 = "example_line [''1/1'']"
  have 1: "mset [?d1, example_header, ?d2] = mset ([example_header] @ [?d1, ?d2])"
    by simp
  have 2: "\<forall>h \<in> set [example_header]. str_startswith h ''#''"
    by (simp add: example_header_def str_startswith_def)
  have a: "map_raise (parse_gt 4300) (sample_fields ?d1) = Inr [[0, 0], [0, 1]]"
    unfolding example_fields_1 by (simp add: py_eval)
  have b: "map_raise (parse_gt 4300) (sample_fields ?d2) = Inr [[1, 1]]"
    unfolding example_fields_2 by (simp add: py_eval)
  have c: "\<not> str_startswith ?d1 ''#''" "\<not> str_startswith ?d2 ''#''"
    by (simp_all add: example_line_def example_meta_def str_startswith_def)
  have 3: "\<forall>d \<in> set [?d1, ?d2]. \<not> str_startswith d ''#'' \<and>
             (\<exists>g. map_raise (parse_gt 4300) (sample_fields d) = Inr g)"
    using a b c by simp
  from snps_read_counts_data_lines [OF 1 2 3]
  show ?thesis by (simp add: py_str_def decimal.simps)
qed

subsection \<open>C2\<close>

text \<open>
  C2 as stated fails. In \<open>shifted_line\<close> the column of index 9, whether the fields are
  those of the raw line or those of the line with its trailing whitespace stripped, is
  \<open>./.\<close>, whose pieces are not integers; the script strips the leading tab as well, so
  that its fields from index 9 onward are \<open>0/1\<close> alone, and the run prints
  \<open>SNPs read 1\<close>. A blank last column, as in the line with the sample columns \<open>0/1\<close>
  and \<open>''''\<close>, is removed by the stripping in the same way and the run succeeds.
\<close>

theorem unparseable_column_counterexample:
  "drop 9 (str_split shifted_line CHR 0x09) = [''./.'', ''0/1'' @ [CHR 0x0A]]
   \<and> drop 9 (spec_fields shifted_line) = [''./.'', ''0/1'']
   \<and> str_split ''./.'' CHR ''/'' = [''.'', ''.'']
   \<and> unparseable 4300 ''.''
   \<and> sample_fields shifted_line = [''0/1'']
   \<and> read_vcf 4300 (of_lines [shifted_line]) =
       \<lparr>stdout = ''SNPs read 1'' @ [CHR 0x0A], raised = None\<rparr>
   \<and> drop 9 (str_split (example_line [''0/1'', '''']) CHR 0x09) = [''0/1'', [CHR 0x0A]]
   \<and> unparseable 4300 [CHR 0x0A]
   \<and> read_vcf 4300 (of_lines [example_line [''0/1'', '''']]) =
       \<lparr>stdout = ''SNPs read 1'' @ [CHR 0x0A], raised = None\<rparr>"
  by (simp add: shifted_line_def py_eval)

text \<open>
  C2, amended. The genotype tokens are the strings handed to \<open>parse_gt\<close>: the fields
  from index 9 onward of the line with the whitespace at both of its ends stripped, for
  the lines that do not start with \<open>#\<close>. If a piece of one of them is not accepted by
  \<open>int\<close>, the run ends with the \<open>ValueError\<close> of the first such piece in reading order
  and prints nothing (the line is not skipped and no value stands in for the piece); if
  there is no such piece, a file that is read to its end raises nothing. \<open>.\<close> and the
  empty string are not accepted. In a file whose lines do not begin with whitespace,
  these tokens are the fields from index 9 onward of the line with only its trailing
  whitespace stripped.
\<close>

theorem unparseable_piece_is_fatal:
  "((\<exists>l \<in> set ls. \<not> str_startswith l ''#'' \<and>
        (\<exists>gt \<in> set (sample_fields l). \<exists>p \<in> set (str_split gt CHR ''/''). unparseable lim p))
      \<longrightarrow> (\<exists>p. find (unparseable lim) (int_arguments ls) = Some p \<and>
                read_vcf lim (of_lines ls) = \<lparr>stdout = [], raised = Some (ValueError p)\<rparr>))
   \<and> (\<not> (\<exists>l \<in> set ls. \<not> str_startswith l ''#'' \<and>
        (\<exists>gt \<in> set (sample_fields l). \<exists>p \<in> set (str_split gt CHR ''/''). unparseable lim p))
      \<longrightarrow> raised (read_vcf lim (of_lines ls)) = None)
   \<and> unparseable lim ''.'' \<and> unparseable lim []
   \<and> ((\<forall>l \<in> set ls. l = [] \<or> \<not> py_isspace (hd l))
        \<longrightarrow> (\<forall>l \<in> set ls. sample_fields l = drop 9 (spec_fields l)))"
proof -
  let ?bad = "\<exists>l \<in> set ls. \<not> str_startswith l ''#'' \<and>
        (\<exists>gt \<in> set (sample_fields l). \<exists>p \<in> set (str_split gt CHR ''/''). unparseable lim p)"
  have 1: "\<exists>p. find (unparseable lim) (int_arguments ls) = Some p \<and>
                read_vcf lim (of_lines ls) = \<lparr>stdout = [], raised = Some (ValueError p)\<rparr>"
    if ?bad
  proof -
    from that have "\<exists>p \<in> set (int_arguments ls). unparseable lim p"
      by (simp only: int_arguments_bad_iff)
    then have "\<exists>p. find (unparseable lim) (int_arguments ls) = Some p"
      by (rule find_some)
    then obtain p where "find (unparseable lim) (int_arguments ls) = Some p" ..
    then show ?thesis using read_vcf_fails by blast
  qed
  have 2: "raised (read_vcf lim (of_lines ls)) = None" if "\<not> ?bad"
  proof -
    from that have "\<not> (\<exists>p \<in> set (int_arguments ls). unparseable lim p)"
      unfolding int_arguments_bad_iff .
    then have "find (unparseable lim) (int_arguments ls) = None"
      by (simp add: find_None_iff)
    from read_vcf_succeeds [OF this] show ?thesis by simp
  qed
  have 3: "(\<forall>l \<in> set ls. l = [] \<or> \<not> py_isspace (hd l))
        \<longrightarrow> (\<forall>l \<in> set ls. sample_fields l = drop 9 (spec_fields l))"
    by (simp add: sample_fields_def spec_fields_def strip_eq_rstrip)
  from 1 2 have "(?bad \<longrightarrow> (\<exists>p. find (unparseable lim) (int_arguments ls) = Some p \<and>
                read_vcf lim (of_lines ls) = \<lparr>stdout = [], raised = Some (ValueError p)\<rparr>))
      \<and> (\<not> ?bad \<longrightarrow> raised (read_vcf lim (of_lines ls)) = None)"
    by blast
  with 3 unparseable_examples show ?thesis
    by (intro conjI) simp_all
qed

text \<open>
  A file whose second data line has the token \<open>./1\<close> fails at \<open>.\<close>; a file with valid
  tokens only does not fail, and its lines, which begin with \<open>#\<close> and \<open>c\<close>, have the
  tokens of the trailing-stripped line.
\<close>

theorem unparseable_piece_is_fatal_witness:
  "read_vcf 4300 (of_lines [example_line [''0/0'', ''0/1''], example_line [''0/1'', ''./1'', ''x'']]) =
     \<lparr>stdout = [], raised = Some (ValueError ''.'')\<rparr>
   \<and> raised (read_vcf 4300 (of_lines [example_header, example_line [''0/0'', ''0/1'']])) = None
   \<and> sample_fields (example_line [''0/0'', ''0/1'']) =
       drop 9 (spec_fields (example_line [''0/0'', ''0/1'']))"
proof -
  let ?d1 = "example_line [''0/0'', ''0/1'']" and ?d2 = "example_line [''0/1'', ''./1'', ''x'']"
  have nw: "\<forall>l \<in> set [example_header, ?d1]. l = [] \<or> \<not> py_isspace (hd l)"
    by (simp add: example_header_def example_line_def example_meta_def py_isspace_def)
  have u: "unparseable 4300 ''.''" "\<not> unparseable 4300 ''0''" "\<not> unparseable 4300 ''1''"
    by (simp_all add: py_eval)
  have bad: "\<exists>l \<in> set [?d1, ?d2]. \<not> str_startswith l ''#'' \<and>
        (\<exists>gt \<in> set (sample_fields l). \<exists>p \<in> set (str_split gt CHR ''/''). unparseable 4300 p)"
    using u by (simp add: example_line_data example_fields_3)
  have good: "\<not> (\<exists>l \<in> set [example_header, ?d1]. \<not> str_startswith l ''#'' \<and>
        (\<exists>gt \<in> set (sample_fields l). \<exists>p \<in> set (str_split gt CHR ''/''). unparseable 4300 p))"
    using u by (simp add: example_fields_1) (simp add: example_header_def str_startswith_def)
  have f: "find (unparseable 4300) (int_arguments [?d1, ?d2]) = Some ''.''"
    using u by (simp add: int_arguments_def example_line_data example_fields_1 example_fields_3)
  from unparseable_piece_is_fatal [of "[?d1, ?d2]" 4300] bad f
  have "read_vcf 4300 (of_lines [?d1, ?d2]) = \<lparr>stdout = [], raised = Some (ValueError ''.'')\<rparr>"
    by auto
  moreover from unparseable_piece_is_fatal [of "[example_header, ?d1]" 4300] good
  have "raised (read_vcf 4300 (of_lines [example_header, ?d1])) = None"
    by blast
  moreover from unparseable_piece_is_fatal [of "[example_header, ?d1]" 4300] nw
  have "sample_fields ?d1 = drop 9 (spec_fields ?d1)"
    by simp
  ultimately show ?thesis by simp
qed

subsection \<open>C3\<close>

text \<open>
  C3 as stated fails. On \<open>leading_tab_line\<close> the fields that the script splits differ
  from those of the line with only its trailing whitespace stripped: the leading tab is
  gone, the line has nine fields and no sample field, and the run prints
  \<open>SNPs read 1\<close>, whereas with trailing stripping alone \<open>x\<close> would be the field of
  index 9 and \<open>int\<close> would refuse it.
\<close>

theorem only_trailing_stripped_counterexample:
  "str_split (str_strip leading_tab_line) CHR 0x09 \<noteq> spec_fields leading_tab_line
   \<and> hd leading_tab_line = CHR 0x09
   \<and> hd (str_strip leading_tab_line) = CHR ''c''
   \<and> length (spec_fields leading_tab_line) = 10
   \<and> length (str_split (str_strip leading_tab_line) CHR 0x09) = 9
   \<and> drop 9 (spec_fields leading_tab_line) = [''x'']
   \<and> sample_fields leading_tab_line = []
   \<and> map_raise (parse_gt 4300) (drop 9 (spec_fields leading_tab_line)) = Inl (ValueError ''x'')
   \<and> read_vcf 4300 (of_lines [leading_tab_line]) =
       \<lparr>stdout = ''SNPs read 1'' @ [CHR 0x0A], raised = None\<rparr>"
  by (simp add: leading_tab_line_def py_eval)

text \<open>
  C3, amended. \<open>line.strip()\<close> removes whitespace at both ends before the split on
  tabs: every line is \<open>a @ str_strip line @ b\<close> with \<open>a\<close> and \<open>b\<close> whitespace only and
  the stripped text neither beginning nor ending with whitespace. So leading whitespace
  (\<open>ws\<close>, for instance a tab or a blank) is not preserved for the field splitting: the
  line with it and the line without it have the same sample fields. A line \<open>l\<close> that
  does not begin with whitespace is split exactly as if only its trailing whitespace
  had been stripped.
\<close>

theorem strip_at_both_ends:
  assumes "list_all py_isspace ws"
      and "l = [] \<or> \<not> py_isspace (hd l)"
  shows "(\<exists>a b. line = a @ str_strip line @ b \<and> list_all py_isspace a \<and> list_all py_isspace b)
       \<and> (str_strip line = [] \<or>
            (\<not> py_isspace (hd (str_strip line)) \<and> \<not> py_isspace (last (str_strip line))))
       \<and> str_split (str_strip (ws @ line)) CHR 0x09 = str_split (str_strip line) CHR 0x09
       \<and> sample_fields (ws @ line) = sample_fields line
       \<and> str_split (str_strip l) CHR 0x09 = spec_fields l
       \<and> sample_fields l = drop 9 (spec_fields l)"
  using strip_decompose [of line] strip_ends [of line] strip_leading [OF assms(1), of line]
    strip_eq_rstrip [OF assms(2)]
  by (simp add: sample_fields_def spec_fields_def)

text \<open>
  The tab in front of \<open>leading_tab_line\<close> changes nothing, and the example line, which
  begins with \<open>c\<close>, is split as the specification says.
\<close>

theorem strip_at_both_ends_witness:
  "sample_fields ([CHR 0x09] @ tl leading_tab_line) = sample_fields (tl leading_tab_line)
   \<and> str_split (str_strip (example_line [''0/0'', ''0/1''])) CHR 0x09 =
       spec_fields (example_line [''0/0'', ''0/1''])
   \<and> sample_fields (example_line [''0/0'', ''0/1'']) = drop 9 (spec_fields (example_line [''0/0'', ''0/1'']))"
proof -
  have 1: "list_all py_isspace [CHR 0x09]"
    by (simp add: py_isspace_def)
  have 2: "example_line [''0/0'', ''0/1''] = [] \<or> \<not> py_isspace (hd (example_line [''0/0'', ''0/1'']))"
    by (simp add: example_line_def example_meta_def py_isspace_def)
  from strip_at_both_ends [OF 1 2, of "tl leading_tab_line"] show ?thesis
    by simp
qed

subsection \<open>C4\<close>

text \<open>
  C4. A token \<open>a1/a2/.../an\<close> with \<open>n \<ge> 1\<close> pieces, each of which \<open>int\<close> accepts (piece
  \<open>ai\<close> with value \<open>vi\<close>), is decoded by \<open>parse_gt\<close> to the list \<open>[v1, ..., vn]\<close>, in this
  order and without an exception, whatever \<open>n\<close> is. The decoded values do not reach the
  counter: two files whose lines agree one by one on being header or data, and whose
  data lines all parse, give the same output and the same outcome.
\<close>

theorem parse_gt_decodes_any_ploidy:
  assumes "ps \<noteq> []"
      and "list_all2 (\<lambda>p v. py_int lim p = Inr v) ps vs"
      and "list_all2 (\<lambda>l l'. str_startswith l ''#'' = str_startswith l' ''#'') ls ls'"
      and "find (unparseable lim) (int_arguments ls) = None"
      and "find (unparseable lim) (int_arguments ls') = None"
  shows "parse_gt lim (str_join CHR ''/'' ps) = Inr vs
       \<and> length vs = length ps
       \<and> read_vcf lim (of_lines ls) = read_vcf lim (of_lines ls')"
proof -
  have "\<forall>p \<in> set ps. CHR ''/'' \<notin> set p"
  proof
    fix p assume "p \<in> set ps"
    with assms(2) obtain v where "py_int lim p = Inr v"
      by (auto simp: list_all2_conv_all_nth in_set_conv_nth)
    then show "CHR ''/'' \<notin> set p" by (rule parseable_has_no_slash)
  qed
  with assms(1) have "str_split (str_join CHR ''/'' ps) CHR ''/'' = ps"
    by (rule split_join)
  then have 1: "parse_gt lim (str_join CHR ''/'' ps) = Inr vs"
    using map_raise_all2 [OF assms(2)] by (simp add: parse_gt_def)
  have 2: "length vs = length ps"
    using assms(2) by (simp add: list_all2_lengthD)
  have "length (filter (\<lambda>l. \<not> str_startswith l ''#'') ls) =
        length (filter (\<lambda>l. \<not> str_startswith l ''#'') ls')"
    using assms(3) by (intro filter_length_all2) (simp add: list_all2_mono)
  then have 3: "read_vcf lim (of_lines ls) = read_vcf lim (of_lines ls')"
    unfolding read_vcf_succeeds [OF assms(4)] read_vcf_succeeds [OF assms(5)] by simp
  from 1 2 3 show ?thesis by simp
qed

text \<open>
  The triploid token \<open>0/1/2\<close>; a line with the columns \<open>0/1/2\<close> and \<open>3\<close> counts like the
  line with the column \<open>1/1\<close>.
\<close>

theorem parse_gt_decodes_any_ploidy_witness:
  "parse_gt 4300 (str_join CHR ''/'' [''0'', ''1'', ''2'']) = Inr [0, 1, 2]
   \<and> read_vcf 4300 (of_lines [example_header, example_line [''0/1/2'', ''3'']]) =
       read_vcf 4300 (of_lines [example_header, example_line [''1/1'']])
   \<and> stdout (read_vcf 4300 (of_lines [example_header, example_line [''0/1/2'', ''3'']])) =
       ''SNPs read 1'' @ [CHR 0x0A]"
proof -
  let ?ls = "[example_header, example_line [''0/1/2'', ''3'']]"
  let ?ls' = "[example_header, example_line [''1/1'']]"
  have 1: "[''0'', ''1'', ''2''] \<noteq> []" by simp
  have 2: "list_all2 (\<lambda>p v. py_int 4300 p = Inr v) [''0'', ''1'', ''2''] [0, 1, 2]"
    by (simp add: py_eval)
  have h: "str_startswith example_header ''#''"
    by (simp add: example_header_def str_startswith_def)
  have 3: "list_all2 (\<lambda>l l'. str_startswith l ''#'' = str_startswith l' ''#'') ?ls ?ls'"
    by (simp add: example_line_data)
  have u: "\<not> unparseable 4300 ''0''" "\<not> unparseable 4300 ''1''" "\<not> unparseable 4300 ''2''"
    "\<not> unparseable 4300 ''3''"
    by (simp_all add: py_eval)
  have 4: "find (unparseable 4300) (int_arguments ?ls) = None"
    using u h by (simp add: int_arguments_def example_line_data example_fields_7)
  have 5: "find (unparseable 4300) (int_arguments ?ls') = None"
    using u h by (simp add: int_arguments_def example_line_data example_fields_2)
  have 6: "stdout (read_vcf 4300 (of_lines ?ls)) = ''SNPs read 1'' @ [CHR 0x0A]"
    unfolding read_vcf_succeeds [OF 4] using h
    by (simp add: example_line_data py_str_def decimal.simps)
  from parse_gt_decodes_any_ploidy [OF 1 2 3 4 5] 6 show ?thesis by simp
qed

subsection \<open>C5\<close>

text \<open>
  C5. The header check looks at the raw line. A line whose first character is \<open>#\<close> leaves
  the state as it is, whatever follows the \<open>#\<close>: the counter is not incremented and \<open>gts\<close>
  is not assigned, so nothing is parsed and nothing can raise. A line that begins with
  whitespace followed by \<open>#\<close> does not pass the check: its fields are parsed and, unless
  that raises, the counter is incremented, as for any other data line.
\<close>

theorem header_check_on_raw_line:
  assumes "ws \<noteq> []" and "list_all py_isspace ws"
  shows "str_startswith (CHR ''#'' # rest) ''#''
       \<and> loop_body lim (CHR ''#'' # rest) st = Inr st
       \<and> \<not> str_startswith (ws @ CHR ''#'' # rest) ''#''
       \<and> loop_body lim (ws @ CHR ''#'' # rest) st =
            (case map_raise (parse_gt lim) (sample_fields (ws @ CHR ''#'' # rest)) of
               Inl e \<Rightarrow> Inl e
             | Inr g \<Rightarrow> Inr (st\<lparr>gts := Some g, snps_read := snps_read st + 1\<rparr>))"
proof -
  have h: "str_startswith (CHR ''#'' # rest) ''#''"
    by (simp add: str_startswith_def)
  from assms obtain c cs where ws: "ws = c # cs" and c: "py_isspace c"
    by (cases ws) auto
  have d: "\<not> str_startswith (ws @ CHR ''#'' # rest) ''#''"
    using isspace_not_hash [OF c] by (simp add: ws str_startswith_def)
  show ?thesis
    using h d by (simp add: loop_body_def)
qed

text \<open>
  \<open>#header\<close> is skipped even when its columns could not be parsed; \<open> #header\<close> with a
  leading blank is counted.
\<close>

theorem header_check_on_raw_line_witness:
  "loop_body 4300 (CHR ''#'' # example_line [''x'']) initial = Inr initial
   \<and> read_vcf 4300 (of_lines [CHR ''#'' # example_line [''x'']]) =
       \<lparr>stdout = ''SNPs read 0'' @ [CHR 0x0A], raised = None\<rparr>
   \<and> read_vcf 4300 (of_lines ['' '' @ CHR ''#'' # ''header'' @ [CHR 0x0A]]) =
       \<lparr>stdout = ''SNPs read 1'' @ [CHR 0x0A], raised = None\<rparr>"
proof -
  have a: "'' '' \<noteq> []" "list_all py_isspace '' ''"
    by (simp_all add: py_isspace_def)
  have s: "sample_fields ('' '' @ CHR ''#'' # ''header'' @ [CHR 0x0A]) = []"
    by (simp add: py_eval)
  from header_check_on_raw_line [OF a, of "example_line [''x'']" 4300 initial]
  have 1: "loop_body 4300 (CHR ''#'' # example_line [''x'']) initial = Inr initial"
    by simp
  from header_check_on_raw_line [OF a, of "''header'' @ [CHR 0x0A]" 4300 initial]
  have 2: "loop_body 4300 ('' '' @ CHR ''#'' # ''header'' @ [CHR 0x0A]) initial =
            Inr (initial\<lparr>gts := Some [], snps_read := snps_read initial + 1\<rparr>)"
    unfolding s by simp
  show ?thesis
    using 1 2 by (simp add: read_vcf_def initial_def py_str_def decimal.simps)
qed

subsection \<open>C6\<close>

text \<open>
  C6. A run that raises nothing has written exactly \<open>SNPs read \<close>, the counter in
  decimal and one newline: the text after the prefix is \<open>str\<close> of the final value of
  \<open>snps_read\<close>, which is not negative, consists of decimal digits only, has no leading
  zero unless the counter is zero, and denotes the counter; the newline that ends the
  line is the only one. For a file with no lines the output is \<open>SNPs read 0\<close>.
\<close>

theorem output_is_one_line:
  assumes "raised (read_vcf lim fhand) = None"
  shows "\<exists>st. for_loop lim fhand initial = Inr st
         \<and> stdout (read_vcf lim fhand) = ''SNPs read '' @ py_str (snps_read st) @ [CHR 0x0A]
         \<and> 0 \<le> snps_read st
         \<and> py_str (snps_read st) \<noteq> []
         \<and> list_all is_digit (py_str (snps_read st))
         \<and> int (digits_value (py_str (snps_read st))) = snps_read st
         \<and> (snps_read st = 0 \<or> hd (py_str (snps_read st)) \<noteq> CHR ''0'')
         \<and> length (filter (\<lambda>c. c = CHR 0x0A) (stdout (read_vcf lim fhand))) = 1
         \<and> read_vcf lim EOF = \<lparr>stdout = ''SNPs read 0'' @ [CHR 0x0A], raised = None\<rparr>"
proof -
  from assms obtain st where st: "for_loop lim fhand initial = Inr st"
    by (cases "for_loop lim fhand initial") (auto simp: read_vcf_def)
  then have out: "stdout (read_vcf lim fhand) = ''SNPs read '' @ py_str (snps_read st) @ [CHR 0x0A]"
    by (simp add: read_vcf_def)
  from for_loop_mono [OF st] have nn: "0 \<le> snps_read st"
    by (simp add: initial_def)
  then have s: "py_str (snps_read st) = decimal (nat (snps_read st))"
    by (simp add: py_str_def)
  have d: "py_str (snps_read st) \<noteq> []" "list_all is_digit (py_str (snps_read st))"
    unfolding s using decimal_digits by simp_all
  have v: "int (digits_value (py_str (snps_read st))) = snps_read st"
    unfolding s decimal_value using nn by simp
  have z: "snps_read st = 0 \<or> hd (py_str (snps_read st)) \<noteq> CHR ''0''"
    unfolding s using nn decimal_no_leading_zero [of "nat (snps_read st)"] by auto
  have one: "length (filter (\<lambda>c. c = CHR 0x0A) (stdout (read_vcf lim fhand))) = 1"
    unfolding out by (simp add: no_newline_in_digits [OF d(2)])
  have e: "read_vcf lim EOF = \<lparr>stdout = ''SNPs read 0'' @ [CHR 0x0A], raised = None\<rparr>"
    by (simp add: read_vcf_def initial_def py_str_def decimal.simps)
  from st out nn d v z one e show ?thesis by blast
qed

text \<open>The empty file, and the scenario of the specification: \<open>SNPs read 2\<close>.\<close>

theorem output_is_one_line_witness:
  "read_vcf 4300 EOF = \<lparr>stdout = ''SNPs read 0'' @ [CHR 0x0A], raised = None\<rparr>
   \<and> raised (read_vcf 4300 (of_lines [example_header, example_line [''0/0'', ''0/1''], example_line [''1/1'']])) = None
   \<and> length (filter (\<lambda>c. c = CHR 0x0A)
        (stdout (read_vcf 4300 (of_lines [example_header, example_line [''0/0'', ''0/1''], example_line [''1/1'']])))) = 1
   \<and> stdout (read_vcf 4300 (of_lines [example_header, example_line [''0/0'', ''0/1''], example_line [''1/1'']]))
       = ''SNPs read 2'' @ [CHR 0x0A]"
proof -
  let ?f = "of_lines [example_header, example_line [''0/0'', ''0/1''], example_line [''1/1'']]"
  have r: "read_vcf 4300 ?f = \<lparr>stdout = ''SNPs read 2'' @ [CHR 0x0A], raised = None\<rparr>"
    by (simp add: py_eval)
  then have h: "raised (read_vcf 4300 ?f) = None"
    by simp
  from output_is_one_line [OF h] r show ?thesis
    by auto
qed

subsection \<open>C7\<close>

text \<open>
  C7. If parsing some data line of the file raises, the run ends with a \<open>ValueError\<close>
  and standard output is empty, however many data lines came before that line. More
  generally, whatever the reader delivers (\<open>fhand\<close> is any stream, also one that ends
  with an exception of its own), a run either raises nothing or has printed nothing.
\<close>

theorem format_error_prints_nothing:
  assumes "l \<in> set ls" and "\<not> str_startswith l ''#''"
      and "map_raise (parse_gt lim) (sample_fields l) = Inl e"
  shows "stdout (read_vcf lim (of_lines ls)) = []
       \<and> (\<exists>p. raised (read_vcf lim (of_lines ls)) = Some (ValueError p))
       \<and> (raised (read_vcf lim fhand) = None \<or> stdout (read_vcf lim fhand) = [])"
proof -
  have q: "raised (read_vcf lim fhand) = None \<or> stdout (read_vcf lim fhand) = []"
    using read_vcf_quiet_on_error [of lim fhand] by (cases "raised (read_vcf lim fhand)") auto
  have "\<not> (\<exists>g. map_raise (parse_gt lim) (sample_fields l) = Inr g)"
    using assms(3) by simp
  then have "\<exists>gt \<in> set (sample_fields l). \<exists>p \<in> set (str_split gt CHR ''/''). unparseable lim p"
    unfolding gts_ok_iff by blast
  with assms(1,2) have "\<exists>p \<in> set (int_arguments ls). unparseable lim p"
    unfolding int_arguments_bad_iff by blast
  then have "\<exists>p. find (unparseable lim) (int_arguments ls) = Some p"
    by (rule find_some)
  then obtain p where "find (unparseable lim) (int_arguments ls) = Some p" ..
  from read_vcf_fails [OF this] q show ?thesis by simp
qed

text \<open>Two data lines parse, the third has the token \<open>0/.\<close>: nothing is printed.\<close>

theorem format_error_prints_nothing_witness:
  "stdout (read_vcf 4300 (of_lines [example_line [''0/0'', ''0/1''], example_line [''1/1''], example_line [''0/.'']])) = []
   \<and> (\<exists>p. raised (read_vcf 4300 (of_lines [example_line [''0/0'', ''0/1''], example_line [''1/1''], example_line [''0/.'']]))
          = Some (ValueError p))"
proof -
  have e: "map_raise (parse_gt 4300) (sample_fields (example_line [''0/.''])) = Inl (ValueError ''.'')"
    unfolding example_fields_4 by (simp add: py_eval)
  show ?thesis
    using format_error_prints_nothing [OF _ example_line_data e,
        of "[example_line [''0/0'', ''0/1''], example_line [''1/1''], example_line [''0/.'']]" EOF]
    by simp
qed

subsection \<open>C8\<close>




subsection \<open>C9\<close>

text \<open>
  C9. A line that does not start with \<open>#\<close> and has at most nine tab-separated fields
  (counted on the raw line or on the stripped line, which has no more fields than the
  raw one) has no sample fields: \<open>gts\<close> becomes the empty list, nothing is parsed, no
  error is raised and the counter goes up by one. This holds for a blank line, with or
  without its newline. No minimum number of fields is checked.
\<close>

theorem short_line_is_counted:
  assumes "\<not> str_startswith line ''#''"
      and "length (str_split line CHR 0x09) \<le> 9 \<or> length (str_split (str_strip line) CHR 0x09) \<le> 9"
  shows "sample_fields line = []
       \<and> loop_body lim line st = Inr (st\<lparr>gts := Some [], snps_read := snps_read st + 1\<rparr>)
       \<and> loop_body lim [CHR 0x0A] st = Inr (st\<lparr>gts := Some [], snps_read := snps_read st + 1\<rparr>)
       \<and> loop_body lim [] st = Inr (st\<lparr>gts := Some [], snps_read := snps_read st + 1\<rparr>)"
proof -
  have "length (str_split (str_strip line) CHR 0x09) \<le> 9"
    using assms(2) fields_strip_le [of line "CHR 0x09"] by linarith
  then have s: "sample_fields line = []"
    by (simp add: sample_fields_def)
  have b: "sample_fields [CHR 0x0A] = []" "sample_fields [] = []"
    by (simp_all add: sample_fields_def str_strip_def py_isspace_def)
  have n: "\<not> str_startswith [CHR 0x0A] ''#''" "\<not> str_startswith [] ''#''"
    by (simp_all add: str_startswith_def)
  show ?thesis
    using assms(1) s b n by (simp add: loop_body_def)
qed

text \<open>
  A line of three fields, the first of which is not even a chromosome name, and a file
  of two blank lines.
\<close>

theorem short_line_is_counted_witness:
  "loop_body 4300 (''a'' @ [CHR 0x09] @ ''b'' @ [CHR 0x09] @ ''x/y'' @ [CHR 0x0A]) initial =
      Inr (initial\<lparr>gts := Some [], snps_read := snps_read initial + 1\<rparr>)
   \<and> read_vcf 4300 (of_lines [[CHR 0x0A], [CHR 0x0A]]) =
       \<lparr>stdout = ''SNPs read 2'' @ [CHR 0x0A], raised = None\<rparr>"
proof -
  let ?l = "''a'' @ [CHR 0x09] @ ''b'' @ [CHR 0x09] @ ''x/y'' @ [CHR 0x0A]"
  have 1: "\<not> str_startswith ?l ''#''"
    by (simp add: str_startswith_def)
  have 2: "length (str_split ?l CHR 0x09) \<le> 9 \<or> length (str_split (str_strip ?l) CHR 0x09) \<le> 9"
    by simp
  from short_line_is_counted [OF 1 2, of 4300 initial]
  have a: "loop_body 4300 ?l initial = Inr (initial\<lparr>gts := Some [], snps_read := snps_read initial + 1\<rparr>)"
    by simp
  from short_line_is_counted [OF 1 2, of 4300]
  have b: "loop_body 4300 [CHR 0x0A] st = Inr (st\<lparr>gts := Some [], snps_read := snps_read st + 1\<rparr>)" for st
    by simp
  show ?thesis
    using a by (simp add: read_vcf_def b initial_def py_str_def decimal.simps)
qed

subsection \<open>C10\<close>



end
